theory Spec2Isabelle
  imports Main "HOL-Library.Word" "HOL-Library.Sublist"
begin

section \<open>SimpleFSDirectory.cpp: file handles and buffered streams\<close>

text \<open>
  A shallow embedding of \<^verbatim>\<open>src/core/store/SimpleFSDirectory.cpp\<close>: the raw input handle
  \<^verbatim>\<open>InputFile\<close>, the buffered input stream \<^verbatim>\<open>SimpleFSIndexInput\<close>, the raw output handle
  \<^verbatim>\<open>OutputFile\<close> and the buffered output stream \<^verbatim>\<open>SimpleFSIndexOutput\<close>.
  Objects that the C++ shares through smart pointers live in a store (a list, an
  object's address is its index); exceptions are values of the type \<open>error\<close>; the
  \<^verbatim>\<open>while\<close> loop of \<^verbatim>\<open>readInternal\<close> is a partial function in the option monad, so
  that a run of the loop that never ends is the value \<open>None\<close>.
\<close>

subsection \<open>Machine integers, bytes, memory\<close>

type_synonym byte = "8 word"

text \<open>
  \<^verbatim>\<open>int32_t\<close> and \<^verbatim>\<open>int64_t\<close> values are integers; every arithmetic operation of the
  source on them is wrapped to the two's-complement range.
\<close>

definition int32 :: "int \<Rightarrow> int" where
  "int32 x = (x + 2147483648) mod 4294967296 - 2147483648"

definition int64 :: "int \<Rightarrow> int" where
  "int64 x = (x + 9223372036854775808) mod 18446744073709551616 - 9223372036854775808"

text \<open>
  The memory behind a pointer \<^verbatim>\<open>uint8_t* b\<close>: the cell at \<^verbatim>\<open>b + k\<close> is \<open>b k\<close>.
  \<open>write_bytes b off bs\<close> stores the bytes \<open>bs\<close> from \<^verbatim>\<open>b + off\<close> on;
  \<open>read_bytes b off n\<close> are the \<open>n\<close> bytes from \<^verbatim>\<open>b + off\<close> on.
\<close>

type_synonym buffer = "int \<Rightarrow> byte"

definition write_bytes :: "buffer \<Rightarrow> int \<Rightarrow> byte list \<Rightarrow> buffer" where
  "write_bytes b off bs =
     (\<lambda>k. if off \<le> k \<and> k < off + int (length bs) then bs ! nat (k - off) else b k)"

definition read_bytes :: "buffer \<Rightarrow> int \<Rightarrow> int \<Rightarrow> byte list" where
  "read_bytes b off n = map (\<lambda>k. b (off + int k)) [0 ..< nat n]"

subsection \<open>Exceptions\<close>

text \<open>
  The exceptions the file throws. \<^verbatim>\<open>IOException()\<close> without a message carries the empty
  string. \<open>NullDereference\<close> is the model's outcome of a method call through a smart
  pointer that holds no object (default-constructed or reset), which C++ leaves
  undefined.
\<close>

datatype error =
    FileNotFoundException string
  | IOException string
  | NullDereference

text \<open>The names the specification gives to these failures.\<close>

definition NotFound :: "string \<Rightarrow> error" where
  "NotFound p = FileNotFoundException p"

definition OutOfRange :: error where
  "OutOfRange = IOException []"

definition UnexpectedEndOfFile :: error where
  "UnexpectedEndOfFile = IOException ''Read past EOF''"

definition IOFailure :: "string \<Rightarrow> error" where
  "IOFailure p = IOException (''Failed to read from file: '' @ p)"

definition Closed :: "string \<Rightarrow> error" where
  "Closed p = IOException (''file is closed: '' @ p)"

subsection \<open>The file system and the standard input stream\<close>

text \<open>
  The file system maps a path to the bytes of the file there; \<open>writable\<close> tells
  whether a file can be created or truncated at a path. \<open>io_log\<close> records every
  \<^verbatim>\<open>ifstream\<close> the code opens and every \<^verbatim>\<open>read\<close> it issues on one (path, position and
  requested count), in order: the physical input operations.
\<close>

datatype io_event = Open string | Read string int int

record filesystem =
  files :: "string \<rightharpoonup> byte list"
  writable :: "string \<Rightarrow> bool"
  io_log :: "io_event list"

text \<open>
  \<^verbatim>\<open>std::ifstream\<close> (through \<^verbatim>\<open>boost::filesystem::ifstream\<close>), as far as the code observes
  it: the open flag, the three state bits, the get position and the count of the last
  unformatted read. Exceptions on the stream are off (the default), so no operation throws.
\<close>

record ifstream =
  is_open :: bool
  eofbit :: bool
  failbit :: bool
  badbit :: bool
  content :: "byte list"
  gpos :: int
  gcount :: int

definition ifstream_open :: "filesystem \<Rightarrow> string \<Rightarrow> ifstream" where
  "ifstream_open fs p =
     (case files fs p of
        None \<Rightarrow> \<lparr>is_open = False, eofbit = False, failbit = True, badbit = False,
                 content = [], gpos = 0, gcount = 0\<rparr>
      | Some bs \<Rightarrow> \<lparr>is_open = True, eofbit = False, failbit = False, badbit = False,
                 content = bs, gpos = 0, gcount = 0\<rparr>)"

definition good :: "ifstream \<Rightarrow> bool" where
  "good s = (\<not> eofbit s \<and> \<not> failbit s \<and> \<not> badbit s)"

definition eof :: "ifstream \<Rightarrow> bool" where
  "eof s = eofbit s"

text \<open>
  \<^verbatim>\<open>seekg(pos)\<close> clears \<open>eofbit\<close>; on a stream that has not failed it moves the get
  position, and sets \<open>failbit\<close> when the position is negative. A position past the end
  of the file is accepted.
\<close>

definition seekg :: "ifstream \<Rightarrow> int \<Rightarrow> ifstream" where
  "seekg s pos =
     (let s = s\<lparr>eofbit := False\<rparr>
      in if failbit s \<or> badbit s then s
         else if pos < 0 then s\<lparr>failbit := True\<rparr>
         else s\<lparr>gpos := pos\<rparr>)"

text \<open>
  \<^verbatim>\<open>read(s, n)\<close> extracts bytes until \<open>n\<close> are stored or the file ends; when fewer than
  \<open>n\<close> were stored it sets \<open>eofbit\<close> and \<open>failbit\<close>. \<open>gcount\<close> is the number stored.
  The second component is the bytes stored. A request with \<open>n \<le> 0\<close> stores nothing.
\<close>

definition ifstream_read :: "ifstream \<Rightarrow> int \<Rightarrow> ifstream \<times> byte list" where
  "ifstream_read s n =
     (if \<not> good s then (s\<lparr>failbit := True, gcount := 0\<rparr>, [])
      else
        let bs = take (nat n) (drop (nat (gpos s)) (content s));
            cnt = int (length bs)
        in (s\<lparr>gcount := cnt, gpos := gpos s + cnt,
               eofbit := (cnt \<noteq> n), failbit := (cnt \<noteq> n)\<rparr>, bs))"

subsection \<open>FileUtils and the FileReader sentinels\<close>

text \<open>
  Modelled from the spec: \<^verbatim>\<open>FileUtils::fileExists\<close> and \<^verbatim>\<open>FileUtils::fileLength\<close>
  (FileUtils.cpp is not part of the sources at hand). The specification, section 6, gives
  them as \<^verbatim>\<open>fileExists(path) -> bool\<close> and \<^verbatim>\<open>fileLength(path) -> int64\<close>, reliable
  queries of the file system: whether a file is at the path, and its size in bytes.
\<close>

definition fileExists :: "filesystem \<Rightarrow> string \<Rightarrow> bool" where
  "fileExists fs p = (files fs p \<noteq> None)"

definition fileLength :: "filesystem \<Rightarrow> string \<Rightarrow> int" where
  "fileLength fs p = (case files fs p of None \<Rightarrow> 0 | Some bs \<Rightarrow> int (length bs))"

text \<open>
  \<^verbatim>\<open>InputFile::FILE_EOF\<close> and \<^verbatim>\<open>InputFile::FILE_ERROR\<close> are initialised from
  \<^verbatim>\<open>FileReader::FILE_EOF\<close> and \<^verbatim>\<open>FileReader::FILE_ERROR\<close>, whose values are declared
  outside this file: they are parameters of the model.
\<close>

record sentinels =
  FILE_EOF :: int
  FILE_ERROR :: int

subsection \<open>InputFile\<close>

record InputFile =
  if_path :: string
  if_position :: int
  if_length :: int

definition InputFile_new :: "filesystem \<Rightarrow> string \<Rightarrow> error + InputFile" where
  "InputFile_new fs p =
     (if \<not> fileExists fs p then Inl (FileNotFoundException p)
      else Inr \<lparr>if_path = p, if_position = 0, if_length = fileLength fs p\<rparr>)"

definition setPosition :: "InputFile \<Rightarrow> int \<Rightarrow> (error + unit) \<times> InputFile" where
  "setPosition h p =
     (let h = h\<lparr>if_position := p\<rparr>
      in if p < 0 \<or> p > if_length h then (Inl (IOException []), h)
         else (Inr (), h))"

definition getPosition :: "InputFile \<Rightarrow> int" where
  "getPosition h = if_position h"

definition getLength :: "InputFile \<Rightarrow> int" where
  "getLength h = if_length h"

text \<open>
  \<^verbatim>\<open>InputFile::read\<close>: a fresh stream is opened on the path and positioned; the result is
  the returned \<^verbatim>\<open>int32_t\<close>, the handle, the memory behind \<open>b\<close> and the file system (its
  log extended). No operation in the \<^verbatim>\<open>try\<close> block throws, so the \<^verbatim>\<open>catch\<close> branch has no
  counterpart.
\<close>

definition InputFile_read ::
  "sentinels \<Rightarrow> filesystem \<Rightarrow> InputFile \<Rightarrow> buffer \<Rightarrow> int \<Rightarrow> int
     \<Rightarrow> int \<times> InputFile \<times> buffer \<times> filesystem" where
  "InputFile_read c fs h b offset len =
     (let file = seekg (ifstream_open fs (if_path h)) (if_position h);
          fs = fs\<lparr>io_log := io_log fs @ [Open (if_path h)]\<rparr>
      in if \<not> is_open file \<or> \<not> good file then (FILE_ERROR c, h, b, fs)
         else if eof file then (FILE_EOF c, h, b, fs)
         else
           let (file, bs) = ifstream_read file len;
               fs = fs\<lparr>io_log := io_log fs @ [Read (if_path h) (if_position h) len]\<rparr>;
               readCount = int32 (gcount file)
           in (readCount, h\<lparr>if_position := int64 (if_position h + readCount)\<rparr>,
               write_bytes b offset bs, fs))"

definition InputFile_close :: "InputFile \<Rightarrow> InputFile" where
  "InputFile_close h = h"

definition InputFile_isValid :: "filesystem \<Rightarrow> InputFile \<Rightarrow> bool \<times> filesystem" where
  "InputFile_isValid fs h =
     (let file = seekg (ifstream_open fs (if_path h)) (if_position h)
      in (is_open file \<and> good file, fs\<lparr>io_log := io_log fs @ [Open (if_path h)]\<rparr>))"

subsection \<open>SimpleFSIndexInput\<close>

text \<open>
  Modelled from the spec: the base class \<^verbatim>\<open>BufferedIndexInput\<close> (not part of the sources
  at hand). Of its state the model keeps what the specification's data model names: the
  buffer size and \<open>filePointer\<close>, the logical position of the stream, which
  \<^verbatim>\<open>getFilePointer()\<close> returns, \<^verbatim>\<open>seek(pos)\<close> sets ("purely a logical position update") and
  \<^verbatim>\<open>clone\<close> copies ("its own copy of the current logical position"). The other four
  fields are the class's own; \<open>in_file\<close> is the shared pointer to the InputFile
  (\<open>None\<close> is the null pointer).
\<close>

record SimpleFSIndexInput =
  in_bufferSize :: int
  in_filePointer :: int
  in_file :: "nat option"
  in_path :: string
  in_chunkSize :: int
  in_isClone :: bool

record world =
  fsys :: filesystem
  inputFiles :: "InputFile list"
  indexInputs :: "SimpleFSIndexInput list"

definition deref :: "'a list \<Rightarrow> nat \<Rightarrow> 'a option" where
  "deref objs r = (if r < length objs then Some (objs ! r) else None)"

text \<open>The stream at address \<open>this\<close>, with the address and the state of its InputFile.\<close>

definition stream_file :: "world \<Rightarrow> nat \<Rightarrow> (SimpleFSIndexInput \<times> nat \<times> InputFile) option" where
  "stream_file w this =
     (case deref (indexInputs w) this of
        None \<Rightarrow> None
      | Some s \<Rightarrow>
          (case in_file s of
             None \<Rightarrow> None
           | Some r \<Rightarrow>
               (case deref (inputFiles w) r of
                  None \<Rightarrow> None
                | Some h \<Rightarrow> Some (s, r, h))))"

definition put_file :: "world \<Rightarrow> nat \<Rightarrow> InputFile \<Rightarrow> world" where
  "put_file w r h = w\<lparr>inputFiles := list_update (inputFiles w) r h\<rparr>"

text \<open>
  Modelled from the spec: \<^verbatim>\<open>BufferedIndexInput::getFilePointer\<close>, which returns the logical
  position of the stream.
\<close>

definition getFilePointer :: "SimpleFSIndexInput \<Rightarrow> int" where
  "getFilePointer s = in_filePointer s"

text \<open>The no-argument constructor (the base class part is overwritten by \<^verbatim>\<open>clone\<close>).\<close>

definition SimpleFSIndexInput_default :: SimpleFSIndexInput where
  "SimpleFSIndexInput_default =
     \<lparr>in_bufferSize = 0, in_filePointer = 0, in_file = None, in_path = [],
      in_chunkSize = 0, in_isClone = False\<rparr>"

text \<open>
  The constructor \<^verbatim>\<open>SimpleFSIndexInput(path, bufferSize, chunkSize)\<close>: the new InputFile
  and the new stream are appended to the store; the result is the stream's address. The
  base class constructor \<^verbatim>\<open>BufferedIndexInput(bufferSize)\<close> keeps the buffer size and
  starts the stream at logical position 0.
\<close>

definition SimpleFSIndexInput_new ::
  "world \<Rightarrow> string \<Rightarrow> int \<Rightarrow> int \<Rightarrow> (error + nat) \<times> world" where
  "SimpleFSIndexInput_new w p bufferSize chunkSize =
     (case InputFile_new (fsys w) p of
        Inl e \<Rightarrow> (Inl e, w)
      | Inr h \<Rightarrow>
          (Inr (length (indexInputs w)),
           w\<lparr>inputFiles := inputFiles w @ [h],
             indexInputs := indexInputs w @
               [\<lparr>in_bufferSize = bufferSize, in_filePointer = 0,
                 in_file = Some (length (inputFiles w)), in_path = p,
                 in_chunkSize = chunkSize, in_isClone = False\<rparr>]\<rparr>))"

text \<open>
  The \<^verbatim>\<open>while\<close> loop of \<^verbatim>\<open>readInternal\<close>, on the state of the InputFile, the memory behind
  \<open>b\<close> and the file system. \<open>p\<close> is the stream's path (for the message).
\<close>

partial_function (option) readInternal_loop ::
  "sentinels \<Rightarrow> string \<Rightarrow> int \<Rightarrow> int \<Rightarrow> int \<Rightarrow> int \<Rightarrow> InputFile \<Rightarrow> buffer \<Rightarrow> filesystem
     \<Rightarrow> ((error + unit) \<times> InputFile \<times> buffer \<times> filesystem) option" where
  "readInternal_loop c p chunkSize offset len total' h b fs =
     (if total' < len then
        let readLength = (if int32 (total' + chunkSize) > len then int32 (len - total')
                          else chunkSize)
        in case InputFile_read c fs h b (int32 (offset + total')) readLength of
             (i, h, b, fs) \<Rightarrow>
               if i = FILE_EOF c then Some (Inl (IOException ''Read past EOF''), h, b, fs)
               else if i = FILE_ERROR c then
                 Some (Inl (IOException (''Failed to read from file: '' @ p)), h, b, fs)
               else readInternal_loop c p chunkSize offset len (int32 (total' + i)) h b fs
      else Some (Inr (), h, b, fs))"

text \<open>
  The loop run on the InputFile at address \<open>r\<close> of the store, whose state on entry is
  \<open>h\<close>; the state the loop leaves is written back.
\<close>

definition read_chunks ::
  "sentinels \<Rightarrow> world \<Rightarrow> SimpleFSIndexInput \<Rightarrow> nat \<Rightarrow> InputFile \<Rightarrow> buffer \<Rightarrow> int \<Rightarrow> int
     \<Rightarrow> ((error + unit) \<times> world \<times> buffer) option" where
  "read_chunks c w s r h b offset len =
     (case readInternal_loop c (in_path s) (in_chunkSize s) offset len 0 h b (fsys w) of
        None \<Rightarrow> None
      | Some (res, h, b, fs) \<Rightarrow> Some (res, put_file (w\<lparr>fsys := fs\<rparr>) r h, b))"

text \<open>
  \<^verbatim>\<open>readInternal\<close>. The lock on the InputFile is held from the first statement to the
  last; in this sequential model it has no effect. An exception leaves the store as it
  is at the throw.
\<close>

definition readInternal ::
  "sentinels \<Rightarrow> world \<Rightarrow> nat \<Rightarrow> buffer \<Rightarrow> int \<Rightarrow> int
     \<Rightarrow> ((error + unit) \<times> world \<times> buffer) option" where
  "readInternal c w this b offset len =
     (case stream_file w this of
        None \<Rightarrow> Some (Inl NullDereference, w, b)
      | Some (s, r, h) \<Rightarrow>
          let position = getFilePointer s
          in (case (if position \<noteq> getPosition h then setPosition h position
                    else (Inr (), h)) of
                (Inl e, h) \<Rightarrow> Some (Inl e, put_file w r h, b)
              | (Inr u, h) \<Rightarrow> read_chunks c w s r h b offset len))"

definition seekInternal :: "world \<Rightarrow> nat \<Rightarrow> int \<Rightarrow> world" where
  "seekInternal w this pos = w"

text \<open>
  Modelled from the spec: \<^verbatim>\<open>BufferedIndexInput::seek\<close>, "purely a logical position
  update", which ends in the hook \<^verbatim>\<open>seekInternal\<close> of this file.
\<close>

definition seek :: "world \<Rightarrow> nat \<Rightarrow> int \<Rightarrow> (error + unit) \<times> world" where
  "seek w this pos =
     (case deref (indexInputs w) this of
        None \<Rightarrow> (Inl NullDereference, w)
      | Some s \<Rightarrow>
          (Inr (), seekInternal
             (w\<lparr>indexInputs := list_update (indexInputs w) this (s\<lparr>in_filePointer := pos\<rparr>)\<rparr>)
             this pos))"

definition SimpleFSIndexInput_length :: "world \<Rightarrow> nat \<Rightarrow> error + int" where
  "SimpleFSIndexInput_length w this =
     (case stream_file w this of
        None \<Rightarrow> Inl NullDereference
      | Some (s, r, h) \<Rightarrow> Inr (getLength h))"

definition SimpleFSIndexInput_close :: "world \<Rightarrow> nat \<Rightarrow> (error + unit) \<times> world" where
  "SimpleFSIndexInput_close w this =
     (case deref (indexInputs w) this of
        None \<Rightarrow> (Inl NullDereference, w)
      | Some s \<Rightarrow>
          if \<not> in_isClone s then
            (case stream_file w this of
               None \<Rightarrow> (Inl NullDereference, w)
             | Some (s, r, h) \<Rightarrow> (Inr (), put_file w r (InputFile_close h)))
          else (Inr (), w))"

definition SimpleFSIndexInput_isValid :: "world \<Rightarrow> nat \<Rightarrow> (error + bool) \<times> world" where
  "SimpleFSIndexInput_isValid w this =
     (case stream_file w this of
        None \<Rightarrow> (Inl NullDereference, w)
      | Some (s, r, h) \<Rightarrow>
          (case InputFile_isValid (fsys w) h of (v, fs) \<Rightarrow> (Inr v, w\<lparr>fsys := fs\<rparr>)))"

text \<open>
  Modelled from the spec: \<^verbatim>\<open>BufferedIndexInput::clone\<close>, which gives the target "its own
  buffer and its own copy of the current logical position".
\<close>

definition BufferedIndexInput_clone ::
  "SimpleFSIndexInput \<Rightarrow> SimpleFSIndexInput \<Rightarrow> SimpleFSIndexInput" where
  "BufferedIndexInput_clone s target =
     target\<lparr>in_bufferSize := in_bufferSize s, in_filePointer := getFilePointer s\<rparr>"

text \<open>
  \<^verbatim>\<open>clone(other)\<close>: the target is \<open>other\<close> when given, a newly allocated
  default-constructed stream otherwise. The result is the target's address.
\<close>

definition clone :: "world \<Rightarrow> nat \<Rightarrow> nat option \<Rightarrow> (error + nat) \<times> world" where
  "clone w this other =
     (case deref (indexInputs w) this of
        None \<Rightarrow> (Inl NullDereference, w)
      | Some s \<Rightarrow>
          let (t, w) = (case other of
                          Some t \<Rightarrow> (t, w)
                        | None \<Rightarrow> (length (indexInputs w),
                                   w\<lparr>indexInputs := indexInputs w @ [SimpleFSIndexInput_default]\<rparr>))
          in (case deref (indexInputs w) t of
                None \<Rightarrow> (Inl NullDereference, w)
              | Some target \<Rightarrow>
                  let cloneIndexInput = BufferedIndexInput_clone s target;
                      cloneIndexInput = cloneIndexInput\<lparr>in_path := in_path s\<rparr>;
                      cloneIndexInput = cloneIndexInput\<lparr>in_file := in_file s\<rparr>;
                      cloneIndexInput = cloneIndexInput\<lparr>in_chunkSize := in_chunkSize s\<rparr>;
                      cloneIndexInput = cloneIndexInput\<lparr>in_isClone := True\<rparr>
                  in (Inr t, w\<lparr>indexInputs := list_update (indexInputs w) t cloneIndexInput\<rparr>)))"


subsection \<open>A client of the input streams\<close>

text \<open>
  What a client can do with the streams of a store, one call at a time: a fill, a seek,
  a clone, a close, a validity check, opening a further stream; between two calls the
  files on disk may change from outside (\<open>Disk\<close>). \<open>run\<close> performs a list of such
  steps; it is \<open>None\<close> when a fill does not return.
\<close>

datatype action =
    Fill nat buffer int int
  | Seek nat int
  | Clone nat
  | Close nat
  | IsValid nat
  | OpenInput string int int
  | Disk "string \<rightharpoonup> byte list"

fun perform :: "sentinels \<Rightarrow> action \<Rightarrow> world \<Rightarrow> world option" where
  "perform c (Fill this b offset len) w =
     (case readInternal c w this b offset len of
        None \<Rightarrow> None
      | Some (res, w, b) \<Rightarrow> Some w)"
| "perform c (Seek this pos) w = Some (snd (seek w this pos))"
| "perform c (Clone this) w = Some (snd (clone w this None))"
| "perform c (Close this) w = Some (snd (SimpleFSIndexInput_close w this))"
| "perform c (IsValid this) w = Some (snd (SimpleFSIndexInput_isValid w this))"
| "perform c (OpenInput p bufferSize chunkSize) w =
     Some (snd (SimpleFSIndexInput_new w p bufferSize chunkSize))"
| "perform c (Disk f) w = Some (w\<lparr>fsys := (fsys w)\<lparr>files := f\<rparr>\<rparr>)"

fun run :: "sentinels \<Rightarrow> action list \<Rightarrow> world \<Rightarrow> world option" where
  "run c [] w = Some w"
| "run c (a # as) w =
     (case perform c a w of
        None \<Rightarrow> None
      | Some w \<Rightarrow> run c as w)"

text \<open>
  \<open>keeps_lengths w w'\<close>: every InputFile of \<open>w\<close> is in \<open>w'\<close> with the length it has in
  \<open>w\<close>, and every stream of \<open>w\<close> is in \<open>w'\<close> with the InputFile pointer it has in \<open>w\<close>.
\<close>

definition keeps_lengths :: "world \<Rightarrow> world \<Rightarrow> bool" where
  "keeps_lengths w w' =
     (prefix (map if_length (inputFiles w)) (map if_length (inputFiles w')) \<and>
      prefix (map in_file (indexInputs w)) (map in_file (indexInputs w')))"

subsection \<open>The standard output stream\<close>

text \<open>
  \<^verbatim>\<open>std::ofstream\<close>, as far as the code observes it: the open flag, the state bits, and
  the bytes written and not yet flushed, which \<^verbatim>\<open>flush\<close> appends to the file. Opening
  with \<^verbatim>\<open>std::ios::binary | std::ios::out\<close> creates the file or empties it.
\<close>

record ofstream =
  o_is_open :: bool
  o_eofbit :: bool
  o_failbit :: bool
  o_badbit :: bool
  o_path :: string
  o_pending :: "byte list"

definition ofstream_open :: "filesystem \<Rightarrow> string \<Rightarrow> ofstream \<times> filesystem" where
  "ofstream_open fs p =
     (if writable fs p then
        (\<lparr>o_is_open = True, o_eofbit = False, o_failbit = False, o_badbit = False,
          o_path = p, o_pending = []\<rparr>, fs\<lparr>files := (files fs)(p \<mapsto> [])\<rparr>)
      else
        (\<lparr>o_is_open = False, o_eofbit = False, o_failbit = True, o_badbit = False,
          o_path = p, o_pending = []\<rparr>, fs))"

definition o_good :: "ofstream \<Rightarrow> bool" where
  "o_good s = (\<not> o_eofbit s \<and> \<not> o_failbit s \<and> \<not> o_badbit s)"

definition o_bad :: "ofstream \<Rightarrow> bool" where
  "o_bad s = o_badbit s"

definition o_fail :: "ofstream \<Rightarrow> bool" where
  "o_fail s = (o_failbit s \<or> o_badbit s)"

definition o_eof :: "ofstream \<Rightarrow> bool" where
  "o_eof s = o_eofbit s"

text \<open>
  \<^verbatim>\<open>write(s, n)\<close> on a stream that is not good sets \<open>failbit\<close>; otherwise it hands the
  \<open>n\<close> bytes to the stream buffer and sets \<open>badbit\<close> when the buffer did not take
  all \<open>n\<close> (the file is not open, or \<open>n\<close> is negative).
\<close>

definition ofstream_write :: "ofstream \<Rightarrow> byte list \<Rightarrow> int \<Rightarrow> ofstream" where
  "ofstream_write s bs n =
     (if \<not> o_good s then s\<lparr>o_failbit := True\<rparr>
      else if \<not> o_is_open s \<or> int (length bs) \<noteq> n then s\<lparr>o_badbit := True\<rparr>
      else s\<lparr>o_pending := o_pending s @ bs\<rparr>)"

definition ofstream_flush :: "filesystem \<Rightarrow> ofstream \<Rightarrow> ofstream \<times> filesystem" where
  "ofstream_flush fs s =
     (if \<not> o_good s then (s\<lparr>o_failbit := True\<rparr>, fs)
      else if \<not> o_is_open s then (s, fs)
      else (s\<lparr>o_pending := []\<rparr>,
            fs\<lparr>files := (files fs)(o_path s \<mapsto>
                  (case files fs (o_path s) of None \<Rightarrow> [] | Some old \<Rightarrow> old) @ o_pending s)\<rparr>))"

text \<open>The destructor of an open stream writes out what is pending and closes the file.\<close>

definition ofstream_destroy :: "filesystem \<Rightarrow> ofstream \<Rightarrow> filesystem" where
  "ofstream_destroy fs s =
     (if o_is_open s \<and> o_pending s \<noteq> [] then
        fs\<lparr>files := (files fs)(o_path s \<mapsto>
              (case files fs (o_path s) of None \<Rightarrow> [] | Some old \<Rightarrow> old) @ o_pending s)\<rparr>
      else fs)"

subsection \<open>OutputFile\<close>

text \<open>\<open>of_file\<close> is the \<^verbatim>\<open>ofstreamPtr\<close>; \<open>None\<close> is the pointer after \<^verbatim>\<open>reset()\<close>.\<close>

record OutputFile =
  of_path :: string
  of_file :: "ofstream option"

definition OutputFile_isValid :: "OutputFile \<Rightarrow> bool" where
  "OutputFile_isValid out =
     (case of_file out of
        None \<Rightarrow> False
      | Some file \<Rightarrow> o_is_open file \<and> o_good file)"

definition OutputFile_new :: "filesystem \<Rightarrow> string \<Rightarrow> (error + OutputFile) \<times> filesystem" where
  "OutputFile_new fs p =
     (case ofstream_open fs p of
        (file, fs) \<Rightarrow>
          let out = \<lparr>of_path = p, of_file = Some file\<rparr>
          in if \<not> OutputFile_isValid out
             then (Inl (IOException (''failed to open file for write: '' @ p)), fs)
             else (Inr out, fs))"

definition show_bool :: "bool \<Rightarrow> string" where
  "show_bool x = (if x then ''1'' else ''0'')"

definition OutputFile_write ::
  "OutputFile \<Rightarrow> buffer \<Rightarrow> int \<Rightarrow> int \<Rightarrow> (error + bool) \<times> OutputFile" where
  "OutputFile_write out b offset len =
     (case of_file out of
        None \<Rightarrow> (Inl NullDereference, out)
      | Some file \<Rightarrow>
          if \<not> o_is_open file then (Inl (IOException (''file is closed: '' @ of_path out)), out)
          else
            let file = ofstream_write file (read_bytes b offset len) len;
                out = out\<lparr>of_file := Some file\<rparr>
            in if \<not> o_good file then
                 (Inl (IOException (''error writing file: '' @ of_path out @
                         '' bad='' @ show_bool (o_bad file) @
                         '' fail='' @ show_bool (o_fail file) @
                         '' eof='' @ show_bool (o_eof file))), out)
               else (Inr True, out))"

definition OutputFile_close :: "filesystem \<Rightarrow> OutputFile \<Rightarrow> OutputFile \<times> filesystem" where
  "OutputFile_close fs out =
     (case of_file out of
        None \<Rightarrow> (out, fs)
      | Some file \<Rightarrow> (out\<lparr>of_file := None\<rparr>, ofstream_destroy fs file))"

definition OutputFile_flush ::
  "filesystem \<Rightarrow> OutputFile \<Rightarrow> (error + unit) \<times> OutputFile \<times> filesystem" where
  "OutputFile_flush fs out =
     (case of_file out of
        None \<Rightarrow> (Inl NullDereference, out, fs)
      | Some file \<Rightarrow>
          if o_is_open file then
            (case ofstream_flush fs file of
               (file, fs) \<Rightarrow> (Inr (), out\<lparr>of_file := Some file\<rparr>, fs))
          else (Inr (), out, fs))"

text \<open>The destructor of an OutputFile destroys the stream it holds.\<close>

definition OutputFile_destroy :: "filesystem \<Rightarrow> OutputFile \<Rightarrow> filesystem" where
  "OutputFile_destroy fs out =
     (case of_file out of
        None \<Rightarrow> fs
      | Some file \<Rightarrow> ofstream_destroy fs file)"

subsection \<open>SimpleFSIndexOutput\<close>

text \<open>
  Modelled from the spec: the base class \<^verbatim>\<open>BufferedIndexOutput\<close> (not part of the sources
  at hand): an in-memory buffer, here the bytes written to the stream and not yet
  flushed (\<open>out_buffer\<close>), and a \<^verbatim>\<open>close()\<close> that "flushes remaining buffered bytes"
  through \<^verbatim>\<open>flushBuffer\<close>. \<open>out_file\<close> is the \<^verbatim>\<open>OutputFilePtr\<close> (the stream is its only
  owner) and \<open>out_isOpen\<close> the flag of the class.
\<close>

record SimpleFSIndexOutput =
  out_buffer :: "byte list"
  out_file :: "OutputFile option"
  out_isOpen :: bool

definition SimpleFSIndexOutput_new ::
  "filesystem \<Rightarrow> string \<Rightarrow> (error + SimpleFSIndexOutput) \<times> filesystem" where
  "SimpleFSIndexOutput_new fs p =
     (case OutputFile_new fs p of
        (Inl e, fs) \<Rightarrow> (Inl e, fs)
      | (Inr out, fs) \<Rightarrow>
          (Inr \<lparr>out_buffer = [], out_file = Some out, out_isOpen = True\<rparr>, fs))"

definition flushBuffer ::
  "filesystem \<Rightarrow> SimpleFSIndexOutput \<Rightarrow> buffer \<Rightarrow> int \<Rightarrow> int
     \<Rightarrow> (error + unit) \<times> SimpleFSIndexOutput \<times> filesystem" where
  "flushBuffer fs s b offset len =
     (case out_file s of
        None \<Rightarrow> (Inl NullDereference, s, fs)
      | Some out \<Rightarrow>
          (case OutputFile_write out b offset len of
             (Inl e, out) \<Rightarrow> (Inl e, s\<lparr>out_file := Some out\<rparr>, fs)
           | (Inr ok, out) \<Rightarrow>
               (case OutputFile_flush fs out of
                  (res, out, fs) \<Rightarrow> (res, s\<lparr>out_file := Some out\<rparr>, fs))))"

text \<open>The memory that holds the bytes \<open>bs\<close> from its first cell on.\<close>

definition memory_of :: "byte list \<Rightarrow> buffer" where
  "memory_of bs = (\<lambda>k. if 0 \<le> k \<and> k < int (length bs) then bs ! nat k else 0)"

text \<open>
  Modelled from the spec: \<^verbatim>\<open>BufferedIndexOutput::close\<close>, which hands the buffered bytes to
  \<^verbatim>\<open>flushBuffer\<close> and leaves the buffer empty; a failure of \<^verbatim>\<open>flushBuffer\<close> goes on to the
  caller.
\<close>

definition BufferedIndexOutput_close ::
  "filesystem \<Rightarrow> SimpleFSIndexOutput \<Rightarrow> (error + unit) \<times> SimpleFSIndexOutput \<times> filesystem" where
  "BufferedIndexOutput_close fs s =
     (case flushBuffer fs s (memory_of (out_buffer s)) 0 (int (length (out_buffer s))) of
        (Inl e, s, fs) \<Rightarrow> (Inl e, s, fs)
      | (Inr u, s, fs) \<Rightarrow> (Inr (), s\<lparr>out_buffer := []\<rparr>, fs))"

definition SimpleFSIndexOutput_close ::
  "filesystem \<Rightarrow> SimpleFSIndexOutput \<Rightarrow> (error + unit) \<times> SimpleFSIndexOutput \<times> filesystem" where
  "SimpleFSIndexOutput_close fs s =
     (if out_isOpen s then
        (case BufferedIndexOutput_close fs s of
           (Inl e, s, fs) \<Rightarrow> (Inl e, s, fs)
         | (Inr u, s, fs) \<Rightarrow>
             (Inr (),
              s\<lparr>out_file := None, out_isOpen := False\<rparr>,
              (case out_file s of None \<Rightarrow> fs | Some out \<Rightarrow> OutputFile_destroy fs out)))
      else (Inr (), s, fs))"

subsection \<open>Example states\<close>

text \<open>
  Sentinels apart from every byte count; a file \<^verbatim>\<open>seg\<close> of five bytes; a store with one
  stream on it (chunk size 2), sought to logical position 3 while its InputFile is still
  at position 0; a memory of zero bytes; and an output stream on \<^verbatim>\<open>out\<close> with two bytes
  in its buffer.
\<close>

definition c0 :: sentinels where
  "c0 = \<lparr>FILE_EOF = - 1, FILE_ERROR = - 2\<rparr>"

definition fs0 :: filesystem where
  "fs0 = \<lparr>files = [''seg'' \<mapsto> [1, 2, 3, 4, 5]], writable = (\<lambda>p. True), io_log = []\<rparr>"

definition h0 :: InputFile where
  "h0 = \<lparr>if_path = ''seg'', if_position = 0, if_length = 5\<rparr>"

definition s0 :: SimpleFSIndexInput where
  "s0 = \<lparr>in_bufferSize = 8, in_filePointer = 3, in_file = Some 0, in_path = ''seg'',
          in_chunkSize = 2, in_isClone = False\<rparr>"

definition w0 :: world where
  "w0 = \<lparr>fsys = fs0, inputFiles = [h0], indexInputs = [s0]\<rparr>"

definition b0 :: buffer where
  "b0 = (\<lambda>k. 0)"

definition fs_out :: filesystem where
  "fs_out = \<lparr>files = [''out'' \<mapsto> []], writable = (\<lambda>p. True), io_log = []\<rparr>"

definition out0 :: SimpleFSIndexOutput where
  "out0 = \<lparr>out_buffer = [9, 8],
           out_file = Some \<lparr>of_path = ''out'',
                            of_file = Some \<lparr>o_is_open = True, o_eofbit = False,
                                             o_failbit = False, o_badbit = False,
                                             o_path = ''out'', o_pending = []\<rparr>\<rparr>,
           out_isOpen = True\<rparr>"

section \<open>Properties\<close>

subsection \<open>Machine integers and the physical read\<close>

lemma int32_id: "- 2147483648 \<le> x \<Longrightarrow> x < 2147483648 \<Longrightarrow> int32 x = x"
  by (simp add: int32_def)

lemma int64_id:
  "- 9223372036854775808 \<le> x \<Longrightarrow> x < 9223372036854775808 \<Longrightarrow> int64 x = x"
  by (simp add: int64_def)

lemma good_not_eof: "good s \<Longrightarrow> \<not> eof s"
  by (simp add: good_def eof_def)

lemma seekg_open_Some:
  "files fs p = Some bs \<Longrightarrow> 0 \<le> pos \<Longrightarrow>
   seekg (ifstream_open fs p) pos =
     \<lparr>is_open = True, eofbit = False, failbit = False, badbit = False,
      content = bs, gpos = pos, gcount = 0\<rparr>"
  by (simp add: seekg_def ifstream_open_def)

lemma seekg_open_negative:
  "pos < 0 \<Longrightarrow> \<not> good (seekg (ifstream_open fs p) pos)"
  by (simp add: seekg_def ifstream_open_def good_def split: option.splits)

lemma seekg_open_None:
  "files fs p = None \<Longrightarrow> \<not> is_open (seekg (ifstream_open fs p) pos)"
  by (simp add: seekg_def ifstream_open_def)

lemma InputFile_read_error:
  "files fs (if_path h) = None \<or> if_position h < 0 \<Longrightarrow>
   InputFile_read c fs h b off len = (FILE_ERROR c, h, b, fs\<lparr>io_log := io_log fs @ [Open (if_path h)]\<rparr>)"
  using seekg_open_negative[of "if_position h" fs "if_path h"] seekg_open_None[of fs "if_path h" "if_position h"]
  by (auto simp add: InputFile_read_def Let_def)

lemma InputFile_read_Some:
  assumes "files fs (if_path h) = Some bs" "0 \<le> if_position h"
  shows "InputFile_read c fs h b off len =
     (let got = take (nat len) (drop (nat (if_position h)) bs);
          readCount = int32 (int (length got))
      in (readCount, h\<lparr>if_position := int64 (if_position h + readCount)\<rparr>,
          write_bytes b off got,
          fs\<lparr>io_log := io_log fs @ [Open (if_path h), Read (if_path h) (if_position h) len]\<rparr>))"
  by (simp add: InputFile_read_def seekg_open_Some[OF assms] good_def eof_def ifstream_read_def Let_def)


lemma InputFile_read_at_eof:
  assumes "files fs (if_path h) = Some bs" "int (length bs) \<le> if_position h"
    "if_position h < 9223372036854775808"
  shows "InputFile_read c fs h b off len =
     (0, h, write_bytes b off [],
      fs\<lparr>io_log := io_log fs @ [Open (if_path h), Read (if_path h) (if_position h) len]\<rparr>)"
proof -
  have pos: "0 \<le> if_position h" using assms(2) by linarith
  have "drop (nat (if_position h)) bs = []" using assms(2) by simp
  then show ?thesis
    using assms(3) pos
    by (simp add: InputFile_read_Some[OF assms(1) pos] int32_def int64_id)
qed

lemma readInternal_loop_stuck:
  assumes "files fs (if_path h) = Some bs" "int (length bs) \<le> if_position h"
    "if_position h < 9223372036854775808"
    "FILE_EOF c \<noteq> 0" "FILE_ERROR c \<noteq> 0"
    "total' < len" "- 2147483648 \<le> total'" "total' < 2147483648"
  shows "readInternal_loop c p chunkSize offset len total' h b fs = None"
proof -
  have "\<not> (files fs (if_path h) = Some bs \<and> int (length bs) \<le> if_position h \<and>
           if_position h < 9223372036854775808 \<and> FILE_EOF c \<noteq> 0 \<and> FILE_ERROR c \<noteq> 0 \<and>
           total' < len \<and> - 2147483648 \<le> total' \<and> total' < 2147483648)"
    if "readInternal_loop c p chunkSize offset len total' h b fs = Some y" for y
  proof (rule readInternal_loop.raw_induct
      [where P = "\<lambda>c p chunkSize offset len total' h b fs y. \<not> (files fs (if_path h) = Some bs \<and> int (length bs) \<le> if_position h \<and>
           if_position h < 9223372036854775808 \<and> FILE_EOF c \<noteq> 0 \<and> FILE_ERROR c \<noteq> 0 \<and>
           total' < len \<and> - 2147483648 \<le> total' \<and> total' < 2147483648)",
        OF _ that], goal_cases)
    case (1 loop c p chunkSize offset len total' h b fs y)
    show ?case
    proof
      assume A: "(files fs (if_path h) = Some bs \<and> int (length bs) \<le> if_position h \<and>
           if_position h < 9223372036854775808 \<and> FILE_EOF c \<noteq> 0 \<and> FILE_ERROR c \<noteq> 0 \<and>
           total' < len \<and> - 2147483648 \<le> total' \<and> total' < 2147483648)"
      then have rd: "\<And>off n. InputFile_read c fs h b off n =
         (0, h, write_bytes b off [],
          fs\<lparr>io_log := io_log fs @ [Open (if_path h), Read (if_path h) (if_position h) n]\<rparr>)"
        by (simp add: InputFile_read_at_eof)
      from A have t: "int32 total' = total'" by (simp add: int32_id)
      from 1(2) A obtain fs' b' where
        "loop c p chunkSize offset len total' h b' fs' = Some y" "files fs' = files fs"
        by (simp add: rd t Let_def split: if_splits)
      with 1(1)[of c p chunkSize offset len total' h b' fs' y] A show False
        by (simp add:)
    qed
  qed
  with assms show ?thesis
    by (cases "readInternal_loop c p chunkSize offset len total' h b fs") (auto simp:)
qed


lemma readInternal_loop_step:
  assumes f: "files fs (if_path h) = Some bs"
    and pos: "0 \<le> if_position h" "if_position h < int (length bs)"
    and sz: "int (length bs) < 9223372036854775808"
    and tot: "0 \<le> total'" "total' < len"
    and ch: "0 < chunkSize" "len + chunkSize < 2147483648"
    and sen: "FILE_EOF c < 0" "FILE_ERROR c < 0"
  shows "\<exists>i h' b' fs'. 0 < i \<and> i \<le> len - total' \<and>
           h' = h\<lparr>if_position := if_position h + i\<rparr> \<and> if_position h + i \<le> int (length bs) \<and>
           files fs' = files fs \<and>
           readInternal_loop c p chunkSize offset len total' h b fs =
           readInternal_loop c p chunkSize offset len (total' + i) h' b' fs'"
proof -
  define readLength where
    "readLength = (if int32 (total' + chunkSize) > len then int32 (len - total') else chunkSize)"
  have a: "int32 (total' + chunkSize) = total' + chunkSize" "int32 (len - total') = len - total'"
    using tot ch by (simp_all add: int32_id)
  have rl: "0 < readLength" "readLength \<le> len - total'" "readLength < 2147483648"
    using tot ch by (auto simp: readLength_def a)
  define got where "got = take (nat readLength) (drop (nat (if_position h)) bs)"
  define i where "i = int (length got)"
  have i: "0 < i" "i \<le> readLength" "if_position h + i \<le> int (length bs)"
    using rl pos by (auto simp: i_def got_def)
  have i32: "int32 i = i" using i rl by (simp add: int32_id)
  have i64: "int64 (if_position h + i) = if_position h + i"
    using i pos sz by (simp add: int64_id)
  have t32: "int32 (total' + i) = total' + i" using i rl tot ch by (simp add: int32_id)
  have rd: "InputFile_read c fs h b (int32 (offset + total')) readLength =
      (i, h\<lparr>if_position := if_position h + i\<rparr>, write_bytes b (int32 (offset + total')) got,
       fs\<lparr>io_log := io_log fs @ [Open (if_path h), Read (if_path h) (if_position h) readLength]\<rparr>)"
    by (simp add: InputFile_read_Some[OF f pos(1)] Let_def got_def[symmetric] i_def[symmetric] i32 i64)
  have "readInternal_loop c p chunkSize offset len total' h b fs =
        readInternal_loop c p chunkSize offset len (total' + i) (h\<lparr>if_position := if_position h + i\<rparr>)
          (write_bytes b (int32 (offset + total')) got)
          (fs\<lparr>io_log := io_log fs @ [Open (if_path h), Read (if_path h) (if_position h) readLength]\<rparr>)"
    using tot sen i
    by (subst readInternal_loop.simps) (simp add: readLength_def[symmetric] rd t32)
  with i rl show ?thesis by (intro exI conjI) (auto)
qed

lemma readInternal_loop_past_eof:
  assumes f: "files fs (if_path h) = Some bs"
    and pos: "0 \<le> if_position h" "if_position h \<le> int (length bs)"
    and over: "int (length bs) - if_position h < len - total'"
    and sz: "int (length bs) < 9223372036854775808"
    and tot: "0 \<le> total'"
    and ch: "0 < chunkSize" "len + chunkSize < 2147483648"
    and sen: "FILE_EOF c < 0" "FILE_ERROR c < 0"
  shows "readInternal_loop c p chunkSize offset len total' h b fs = None"
  using f pos over tot
proof (induction "nat (int (length bs) - if_position h)" arbitrary: total' h b fs rule: less_induct)
  case less
  show ?case
  proof (cases "if_position h = int (length bs)")
    case True
    with less.prems sz ch sen show ?thesis
      by (intro readInternal_loop_stuck[where bs = bs]) auto
  next
    case False
    with less.prems have lt: "if_position h < int (length bs)" by simp
    from less.prems lt have tl: "total' < len" by linarith
    from readInternal_loop_step[OF less.prems(1) less.prems(2) lt sz less.prems(5) tl ch sen,
        of p offset b]
    obtain i h' b' fs' where st: "0 < i" "i \<le> len - total'"
        "h' = h\<lparr>if_position := if_position h + i\<rparr>" "if_position h + i \<le> int (length bs)"
        "files fs' = files fs"
        "readInternal_loop c p chunkSize offset len total' h b fs =
           readInternal_loop c p chunkSize offset len (total' + i) h' b' fs'"
      by blast
    have "readInternal_loop c p chunkSize offset len (total' + i) h' b' fs' = None"
      using st less.prems by (intro less.hyps) auto
    with st show ?thesis by simp
  qed
qed

lemma readInternal_loop_in_range:
  assumes f: "files fs (if_path h) = Some bs"
    and pos: "0 \<le> if_position h" "if_position h + (len - total') \<le> int (length bs)"
    and sz: "int (length bs) < 9223372036854775808"
    and tot: "0 \<le> total'" "total' \<le> len"
    and ch: "0 < chunkSize" "len + chunkSize < 2147483648"
    and sen: "FILE_EOF c < 0" "FILE_ERROR c < 0"
  shows "\<exists>b' fs'. files fs' = files fs \<and>
           readInternal_loop c p chunkSize offset len total' h b fs =
             Some (Inr (), h\<lparr>if_position := if_position h + (len - total')\<rparr>, b', fs')"
  using f pos tot
proof (induction "nat (len - total')" arbitrary: total' h b fs rule: less_induct)
  case less
  show ?case
  proof (cases "total' = len")
    case True
    then have "readInternal_loop c p chunkSize offset len total' h b fs = Some (Inr (), h, b, fs)"
      by (subst readInternal_loop.simps) simp
    moreover have "h\<lparr>if_position := if_position h + (len - total')\<rparr> = h" using True by simp
    ultimately show ?thesis by auto
  next
    case False
    with less.prems have tl: "total' < len" by simp
    with less.prems have lt: "if_position h < int (length bs)" by linarith
    from readInternal_loop_step[OF less.prems(1) less.prems(2) lt sz less.prems(4) tl ch sen,
        of p offset b]
    obtain i h' b' fs' where st: "0 < i" "i \<le> len - total'"
        "h' = h\<lparr>if_position := if_position h + i\<rparr>" "if_position h + i \<le> int (length bs)"
        "files fs' = files fs"
        "readInternal_loop c p chunkSize offset len total' h b fs =
           readInternal_loop c p chunkSize offset len (total' + i) h' b' fs'"
      by blast
    have "\<exists>b'' fs''. files fs'' = files fs' \<and>
           readInternal_loop c p chunkSize offset len (total' + i) h' b' fs' =
             Some (Inr (), h'\<lparr>if_position := if_position h' + (len - (total' + i))\<rparr>, b'', fs'')"
      using st less.prems by (intro less.hyps) auto
    moreover have "h'\<lparr>if_position := if_position h' + (len - (total' + i))\<rparr> =
        h\<lparr>if_position := if_position h + (len - total')\<rparr>"
      using st(3) by simp
    ultimately show ?thesis using st(5,6) by auto
  qed
qed

lemma InputFile_read_example:
  "InputFile_read c0 fs0 h0 b0 0 7 =
     (5, h0\<lparr>if_position := 5\<rparr>, write_bytes b0 0 [1, 2, 3, 4, 5],
      fs0\<lparr>io_log := [Open ''seg'', Read ''seg'' 0 7]\<rparr>)"
proof -
  have f: "files fs0 (if_path h0) = Some [1, 2, 3, 4, 5]" by (simp add: fs0_def h0_def)
  have p: "0 \<le> if_position h0" by (simp add: h0_def)
  show ?thesis
    by (simp add: InputFile_read_Some[OF f p] Let_def int32_def int64_def) (simp add: h0_def fs0_def)
qed

lemma InputFile_read_negative_example:
  "InputFile_read c0 fs0 (h0\<lparr>if_position := 2\<rparr>) b0 0 (- 3) =
     (0, h0\<lparr>if_position := 2\<rparr>, write_bytes b0 0 [],
      fs0\<lparr>io_log := [Open ''seg'', Read ''seg'' 2 (- 3)]\<rparr>)"
proof -
  have f: "files fs0 (if_path (h0\<lparr>if_position := 2\<rparr>)) = Some [1, 2, 3, 4, 5]"
    by (simp add: fs0_def h0_def)
  have p: "0 \<le> if_position (h0\<lparr>if_position := 2\<rparr>)" by simp
  show ?thesis
    by (simp add: InputFile_read_Some[OF f p] Let_def int32_def int64_def) (simp add: h0_def fs0_def)
qed

subsection \<open>The store\<close>

lemma put_file_same:
  "deref (inputFiles w) r = Some h \<Longrightarrow> put_file w r h = w"
  by (auto simp: put_file_def deref_def split: if_splits)

lemma stream_file_D:
  assumes "stream_file w this = Some (s, r, h)"
  shows "deref (indexInputs w) this = Some s" "in_file s = Some r"
    "deref (inputFiles w) r = Some h"
  using assms by (auto simp: stream_file_def split: option.splits)

lemma read_chunks_nothing:
  "len \<le> 0 \<Longrightarrow> read_chunks c w s r h b offset len = Some (Inr (), put_file w r h, b)"
  by (simp add: read_chunks_def readInternal_loop.simps)

subsection \<open>No call changes a length\<close>

lemma keeps_lengths_refl: "keeps_lengths w w"
  by (simp add: keeps_lengths_def)

lemma keeps_lengths_trans:
  "keeps_lengths w w' \<Longrightarrow> keeps_lengths w' w'' \<Longrightarrow> keeps_lengths w w''"
  unfolding keeps_lengths_def by (meson prefix_order.trans)

lemma map_list_update_same:
  "(i < length xs \<Longrightarrow> f x = f (xs ! i)) \<Longrightarrow> map f (list_update xs i x) = map f xs"
  by (cases "i < length xs") (simp_all add: map_update list_update_same_conv list_update_beyond)

lemma keeps_lengths_fsys: "keeps_lengths w (w\<lparr>fsys := fs\<rparr>)"
  by (simp add: keeps_lengths_def)

lemma keeps_lengths_put_file:
  "(r < length (inputFiles w) \<Longrightarrow> if_length h = if_length (inputFiles w ! r)) \<Longrightarrow>
   keeps_lengths w (put_file (w\<lparr>fsys := fs\<rparr>) r h)"
  by (simp add: keeps_lengths_def put_file_def map_list_update_same)

lemma InputFile_read_keeps_length:
  "InputFile_read c fs h b off n = (i, h', b', fs') \<Longrightarrow> if_length h' = if_length h"
  by (auto simp: InputFile_read_def Let_def split: if_splits prod.splits)

lemma readInternal_loop_keeps_length:
  assumes "readInternal_loop c p chunkSize offset len total' h b fs = Some y"
  shows "if_length (fst (snd y)) = if_length h"
proof (rule readInternal_loop.raw_induct
    [where P = "\<lambda>c p chunkSize offset len total' h b fs y. if_length (fst (snd y)) = if_length h",
      OF _ assms], goal_cases)
  case (1 loop c p chunkSize offset len total' h b fs y)
  show ?case
  proof (cases "total' < len")
    case False
    with 1(2) show ?thesis by auto
  next
    case True
    define readLength where
      "readLength = (if int32 (total' + chunkSize) > len then int32 (len - total') else chunkSize)"
    obtain i h1 b1 fs1 where
      rd: "InputFile_read c fs h b (int32 (offset + total')) readLength = (i, h1, b1, fs1)"
      by (cases "InputFile_read c fs h b (int32 (offset + total')) readLength") auto
    have k: "if_length h1 = if_length h" by (rule InputFile_read_keeps_length[OF rd])
    from 1(2) True rd consider "fst (snd y) = h1"
      | "loop c p chunkSize offset len (int32 (total' + i)) h1 b1 fs1 = Some y"
      by (auto simp: readLength_def[symmetric] split: if_splits)
    then show ?thesis
    proof cases
      case 1
      with k show ?thesis by simp
    next
      case 2
      from 1(1)[OF 2] k show ?thesis by simp
    qed
  qed
qed

lemma setPosition_keeps_length: "if_length (snd (setPosition h p)) = if_length h"
  by (simp add: setPosition_def Let_def)

lemma deref_nth: "deref xs r = Some x \<Longrightarrow> r < length xs \<and> xs ! r = x"
  by (auto simp: deref_def split: if_splits)

lemma read_chunks_keeps_lengths:
  assumes "read_chunks c w s r h b offset len = Some (res, w', b')"
    and "r < length (inputFiles w) \<Longrightarrow> if_length h = if_length (inputFiles w ! r)"
  shows "keeps_lengths w w'"
proof -
  from assms(1) obtain h' fs' where
    l: "readInternal_loop c (in_path s) (in_chunkSize s) offset len 0 h b (fsys w) = Some (res, h', b', fs')"
    and w': "w' = put_file (w\<lparr>fsys := fs'\<rparr>) r h'"
    by (auto simp: read_chunks_def split: option.splits)
  from readInternal_loop_keeps_length[OF l] have "if_length h' = if_length h" by simp
  with assms(2) show ?thesis unfolding w' by (intro keeps_lengths_put_file) simp
qed

lemma readInternal_keeps_lengths:
  assumes "readInternal c w this b offset len = Some (res, w', b')"
  shows "keeps_lengths w w'"
proof (cases "stream_file w this")
  case None
  with assms show ?thesis by (simp add: readInternal_def keeps_lengths_refl)
next
  case (Some t)
  then obtain s r h where sf: "stream_file w this = Some (s, r, h)" by (cases t) auto
  have r: "r < length (inputFiles w)" "inputFiles w ! r = h"
    using deref_nth[OF stream_file_D(3)[OF sf]] by simp_all
  show ?thesis
  proof (cases "getFilePointer s \<noteq> getPosition h")
    case False
    with assms sf have "read_chunks c w s r h b offset len = Some (res, w', b')"
      by (simp add: readInternal_def)
    then show ?thesis by (rule read_chunks_keeps_lengths) (simp add: r)
  next
    case True
    obtain e h1 where sp: "setPosition h (getFilePointer s) = (e, h1)"
      by (cases "setPosition h (getFilePointer s)") auto
    have k: "if_length h1 = if_length h" using setPosition_keeps_length[of h "getFilePointer s"] sp by simp
    show ?thesis
    proof (cases e)
      case (Inl err)
      with assms sf True sp have "w' = put_file w r h1" by (simp add: readInternal_def)
      moreover have "keeps_lengths w (put_file (w\<lparr>fsys := fsys w\<rparr>) r h1)"
        using k r by (intro keeps_lengths_put_file) simp
      ultimately show ?thesis by simp
    next
      case (Inr u)
      with assms sf True sp have "read_chunks c w s r h1 b offset len = Some (res, w', b')"
        by (simp add: readInternal_def)
      then show ?thesis by (rule read_chunks_keeps_lengths) (simp add: r k)
    qed
  qed
qed

lemma seek_keeps_lengths: "keeps_lengths w (snd (seek w this pos))"
proof (cases "deref (indexInputs w) this")
  case None
  then show ?thesis by (simp add: seek_def keeps_lengths_refl)
next
  case (Some s)
  from deref_nth[OF Some] have "in_file (s\<lparr>in_filePointer := pos\<rparr>) = in_file (indexInputs w ! this)"
    by simp
  then have "map in_file (list_update (indexInputs w) this (s\<lparr>in_filePointer := pos\<rparr>)) =
      map in_file (indexInputs w)"
    by (intro map_list_update_same)
  with Some show ?thesis by (simp add: seek_def seekInternal_def keeps_lengths_def)
qed

lemma clone_keeps_lengths: "keeps_lengths w (snd (clone w this None))"
proof (cases "deref (indexInputs w) this")
  case None
  then show ?thesis by (simp add: clone_def keeps_lengths_refl)
next
  case (Some s)
  then show ?thesis
    by (simp add: clone_def Let_def deref_def keeps_lengths_def)
qed

lemma close_keeps_lengths: "keeps_lengths w (snd (SimpleFSIndexInput_close w this))"
proof (cases "stream_file w this")
  case None
  then show ?thesis
    by (simp add: SimpleFSIndexInput_close_def keeps_lengths_refl split: option.splits)
next
  case (Some t)
  then obtain s r h where sf: "stream_file w this = Some (s, r, h)" by (cases t) auto
  have "keeps_lengths w (put_file (w\<lparr>fsys := fsys w\<rparr>) r (InputFile_close h))"
    using deref_nth[OF stream_file_D(3)[OF sf]]
    by (intro keeps_lengths_put_file) (simp add: InputFile_close_def)
  then show ?thesis using sf
    by (simp add: SimpleFSIndexInput_close_def keeps_lengths_refl split: option.splits)
qed

lemma isValid_keeps_lengths: "keeps_lengths w (snd (SimpleFSIndexInput_isValid w this))"
proof (cases "stream_file w this")
  case None
  then show ?thesis by (simp add: SimpleFSIndexInput_isValid_def keeps_lengths_refl)
next
  case (Some t)
  then obtain s r h where sf: "stream_file w this = Some (s, r, h)" by (cases t) auto
  then show ?thesis
    by (simp add: SimpleFSIndexInput_isValid_def InputFile_isValid_def Let_def keeps_lengths_fsys)
qed

lemma new_keeps_lengths: "keeps_lengths w (snd (SimpleFSIndexInput_new w p bufferSize chunkSize))"
proof (cases "InputFile_new (fsys w) p")
  case (Inl e)
  then show ?thesis by (simp add: SimpleFSIndexInput_new_def keeps_lengths_refl)
next
  case (Inr h)
  then show ?thesis by (simp add: SimpleFSIndexInput_new_def keeps_lengths_def)
qed

lemma perform_keeps_lengths:
  assumes "perform c a w = Some w'"
  shows "keeps_lengths w w'"
proof (cases a)
  case (Fill this b offset len)
  with assms obtain res b' where "readInternal c w this b offset len = Some (res, w', b')"
    by (auto split: option.splits)
  then show ?thesis by (rule readInternal_keeps_lengths)
next
  case (Seek this pos)
  with assms have "w' = snd (seek w this pos)" by simp
  then show ?thesis by (simp only: seek_keeps_lengths)
next
  case (Clone this)
  with assms have "w' = snd (clone w this None)" by simp
  then show ?thesis by (simp only: clone_keeps_lengths)
next
  case (Close this)
  with assms have "w' = snd (SimpleFSIndexInput_close w this)" by simp
  then show ?thesis by (simp only: close_keeps_lengths)
next
  case (IsValid this)
  with assms have "w' = snd (SimpleFSIndexInput_isValid w this)" by simp
  then show ?thesis by (simp only: isValid_keeps_lengths)
next
  case (OpenInput p bufferSize chunkSize)
  with assms have "w' = snd (SimpleFSIndexInput_new w p bufferSize chunkSize)" by simp
  then show ?thesis by (simp only: new_keeps_lengths)
next
  case (Disk f)
  with assms have "w' = w\<lparr>fsys := (fsys w)\<lparr>files := f\<rparr>\<rparr>" by simp
  then show ?thesis by (simp only: keeps_lengths_fsys)
qed

lemma run_keeps_lengths: "run c acts w = Some w' \<Longrightarrow> keeps_lengths w w'"
proof (induction acts arbitrary: w)
  case Nil
  then show ?case by (simp add: keeps_lengths_refl)
next
  case (Cons a acts)
  from Cons.prems obtain w1 where p: "perform c a w = Some w1" and r: "run c acts w1 = Some w'"
    by (cases "perform c a w") simp_all
  from perform_keeps_lengths[OF p] Cons.IH[OF r] show ?case by (rule keeps_lengths_trans)
qed

lemma prefix_nth: "prefix xs ys \<Longrightarrow> i < length xs \<Longrightarrow> i < length ys \<and> ys ! i = xs ! i"
  by (auto simp: prefix_def nth_append)

lemma keeps_lengths_length:
  assumes k: "keeps_lengths w w'" and sf: "stream_file w this = Some (s, r, h)"
  shows "SimpleFSIndexInput_length w' this = Inr (if_length h)"
proof -
  note d = stream_file_D[OF sf]
  from deref_nth[OF d(1)] have t: "this < length (indexInputs w)" "indexInputs w ! this = s" by auto
  from deref_nth[OF d(3)] have r: "r < length (inputFiles w)" "inputFiles w ! r = h" by auto
  from k have p1: "prefix (map if_length (inputFiles w)) (map if_length (inputFiles w'))"
    and p2: "prefix (map in_file (indexInputs w)) (map in_file (indexInputs w'))"
    by (simp_all add: keeps_lengths_def)
  from prefix_nth[OF p2, of this] t d(2)
  have t': "this < length (indexInputs w')" "in_file (indexInputs w' ! this) = Some r" by auto
  from prefix_nth[OF p1, of r] r
  have r': "r < length (inputFiles w')" "if_length (inputFiles w' ! r) = if_length h" by auto
  show ?thesis using t' r'
    by (simp add: SimpleFSIndexInput_length_def stream_file_def deref_def getLength_def)
qed


lemma InputFile_new_eq:
  "InputFile_new fs p =
     (case files fs p of
        None \<Rightarrow> Inl (NotFound p)
      | Some bs \<Rightarrow> Inr \<lparr>if_path = p, if_position = 0, if_length = int (length bs)\<rparr>)"
  by (simp add: InputFile_new_def fileExists_def fileLength_def NotFound_def split: option.splits)

subsection \<open>Closing an output stream\<close>

lemma SimpleFSIndexOutput_close_closed:
  "\<not> out_isOpen s \<Longrightarrow> SimpleFSIndexOutput_close fs s = (Inr (), s, fs)"
  by (simp add: SimpleFSIndexOutput_close_def)

lemma SimpleFSIndexOutput_close_result:
  assumes "SimpleFSIndexOutput_close fs s = (Inr (), s1, fs1)" "out_isOpen s"
  shows "out_file s1 = None" "\<not> out_isOpen s1"
  using assms
  by (auto simp: SimpleFSIndexOutput_close_def split: prod.splits sum.splits)

lemma SimpleFSIndexOutput_close_twice:
  assumes "SimpleFSIndexOutput_close fs s = (Inr (), s1, fs1)"
  shows "SimpleFSIndexOutput_close fs1 s1 = (Inr (), s1, fs1)"
proof (cases "out_isOpen s")
  case True
  from SimpleFSIndexOutput_close_result(2)[OF assms True] show ?thesis
    by (rule SimpleFSIndexOutput_close_closed)
next
  case False
  with assms have "s1 = s" "fs1 = fs" by (simp_all add: SimpleFSIndexOutput_close_def)
  with False show ?thesis by (simp add: SimpleFSIndexOutput_close_closed)
qed

lemma SimpleFSIndexOutput_close_example:
  "SimpleFSIndexOutput_close fs_out out0 =
     (Inr (), \<lparr>out_buffer = [], out_file = None, out_isOpen = False\<rparr>,
      fs_out\<lparr>files := [''out'' \<mapsto> [9, 8]]\<rparr>)"
  by (simp add: SimpleFSIndexOutput_close_def BufferedIndexOutput_close_def flushBuffer_def
      OutputFile_write_def OutputFile_flush_def OutputFile_destroy_def ofstream_write_def
      ofstream_flush_def ofstream_destroy_def o_good_def read_bytes_def memory_of_def
      out0_def fs_out_def Let_def upt_rec)

lemma OutputFile_write_after_close:
  "OutputFile_write (fst (OutputFile_close fs out)) b offset len =
     (Inl NullDereference, fst (OutputFile_close fs out))"
  by (simp add: OutputFile_write_def OutputFile_close_def split: option.splits)

lemma OutputFile_write_Closed_iff:
  "fst (OutputFile_write out b offset len) = Inl (Closed (of_path out)) \<longleftrightarrow>
     (\<exists>file. of_file out = Some file \<and> \<not> o_is_open file)"
  by (auto simp: OutputFile_write_def Closed_def Let_def split: option.splits)

subsection \<open>The example states are reachable\<close>

lemma w0_reachable:
  "snd (seek (snd (SimpleFSIndexInput_new \<lparr>fsys = fs0, inputFiles = [], indexInputs = []\<rparr>
                     ''seg'' 8 2)) 0 3) = w0"
  by (simp add: SimpleFSIndexInput_new_def InputFile_new_eq seek_def seekInternal_def deref_def
      w0_def s0_def h0_def fs0_def)

lemma out0_reachable:
  "SimpleFSIndexOutput_new (fs_out\<lparr>files := Map.empty\<rparr>) ''out'' =
     (Inr (out0\<lparr>out_buffer := []\<rparr>), fs_out)"
  by (simp add: SimpleFSIndexOutput_new_def OutputFile_new_def OutputFile_isValid_def
      ofstream_open_def o_good_def out0_def fs_out_def Let_def)

section \<open>The claims\<close>

subsection \<open>C1: a fill past the end of the file\<close>

text \<open>
  Claim C1 asks that a fill of \<open>len\<close> bytes from file pointer \<open>n\<close> with \<open>n + len > L\<close>
  fails with \<open>UnexpectedEndOfFile\<close>. The code does not: with \<open>0 \<le> n \<le> L\<close>, on a file of
  \<open>L\<close> bytes, a positive chunk size and negative sentinels, \<^verbatim>\<open>readInternal\<close> does not
  return at all. \<^verbatim>\<open>InputFile::read\<close> tests \<^verbatim>\<open>eof()\<close> on a stream it has just opened and
  positioned, where the bit is never set; at the end of the file it returns the count 0,
  and the loop of \<^verbatim>\<open>readInternal\<close>, which throws \<^verbatim>\<open>Read past EOF\<close> only on \<^verbatim>\<open>FILE_EOF\<close>, asks
  again for ever.
\<close>

theorem readInternal_past_eof_never_returns:
  assumes sf: "stream_file w this = Some (s, r, h)"
    and f: "files (fsys w) (if_path h) = Some bs"
    and L: "if_length h = int (length bs)"
    and n: "0 \<le> in_filePointer s" "in_filePointer s \<le> if_length h"
    and over: "in_filePointer s + len > if_length h"
    and ch: "0 < in_chunkSize s" "len + in_chunkSize s < 2147483648"
    and sen: "FILE_EOF c < 0" "FILE_ERROR c < 0"
    and sz: "int (length bs) < 9223372036854775808"
  shows "readInternal c w this b offset len = None"
proof -
  define h1 where "h1 = h\<lparr>if_position := in_filePointer s\<rparr>"
  have rec: "(if getFilePointer s \<noteq> getPosition h then setPosition h (getFilePointer s)
              else (Inr (), h)) = (Inr (), h1)"
    using n by (auto simp: getFilePointer_def getPosition_def setPosition_def Let_def h1_def)
  have "readInternal_loop c (in_path s) (in_chunkSize s) offset len 0 h1 b (fsys w) = None"
    using f L n over by (intro readInternal_loop_past_eof[where bs = bs] ch sen sz) (simp_all add: h1_def)
  then have "read_chunks c w s r h1 b offset len = None" by (simp add: read_chunks_def)
  then show ?thesis by (simp add: readInternal_def sf rec)
qed

theorem readInternal_past_eof_never_returns_witness:
  "stream_file w0 0 = Some (s0, 0, h0) \<and>
   files (fsys w0) (if_path h0) = Some [1, 2, 3, 4, 5] \<and>
   if_length h0 = int (length [1::byte, 2, 3, 4, 5]) \<and>
   0 \<le> in_filePointer s0 \<and> in_filePointer s0 \<le> if_length h0 \<and>
   in_filePointer s0 + 4 > if_length h0 \<and>
   0 < in_chunkSize s0 \<and> FILE_EOF c0 < 0 \<and> FILE_ERROR c0 < 0 \<and>
   readInternal c0 w0 0 b0 0 4 = None"
proof -
  have sf: "stream_file w0 0 = Some (s0, 0, h0)"
    by (simp add: stream_file_def deref_def w0_def s0_def)
  have f: "files (fsys w0) (if_path h0) = Some [1, 2, 3, 4, 5]"
    by (simp add: w0_def fs0_def h0_def)
  have L: "if_length h0 = int (length [1::byte, 2, 3, 4, 5])" by (simp add: h0_def)
  have n: "0 \<le> in_filePointer s0" "in_filePointer s0 \<le> if_length h0"
    and over: "in_filePointer s0 + 4 > if_length h0"
    and ch: "0 < in_chunkSize s0" "4 + in_chunkSize s0 < 2147483648"
    by (simp_all add: s0_def h0_def)
  have sen: "FILE_EOF c0 < 0" "FILE_ERROR c0 < 0" by (simp_all add: c0_def)
  have sz: "int (length [1::byte, 2, 3, 4, 5]) < 9223372036854775808" by simp
  from sf f L n over ch sen
    readInternal_past_eof_never_returns [OF sf f L n over ch sen sz, of b0 0]
  show ?thesis by blast
qed

subsection \<open>C2: progress of the fill loop\<close>

text \<open>
  Claim C2 asks that every iteration of the fill loop either transfers at least one byte
  or raises a failure. The code does not: with the InputFile positioned at or after the
  end of its file, \<^verbatim>\<open>InputFile::read\<close> transfers nothing and returns 0, which is neither
  sentinel, the handle stays where it is, and the loop with bytes still to read never
  exits. (When the requested range lies inside the file the loop does end, lemma
  \<open>readInternal_loop_in_range\<close>.)
\<close>

theorem fill_loop_spins_at_end_of_file:
  assumes f: "files fs (if_path h) = Some bs"
    and e: "int (length bs) \<le> if_position h" "if_position h < 9223372036854775808"
    and sen: "FILE_EOF c < 0" "FILE_ERROR c < 0"
    and tot: "0 \<le> total'" "total' < len" "len < 2147483648"
  shows "InputFile_read c fs h b off n =
           (0, h, write_bytes b off [],
            fs\<lparr>io_log := io_log fs @ [Open (if_path h), Read (if_path h) (if_position h) n]\<rparr>)
         \<and> readInternal_loop c p chunkSize offset len total' h b fs = None"
proof
  show "InputFile_read c fs h b off n =
           (0, h, write_bytes b off [],
            fs\<lparr>io_log := io_log fs @ [Open (if_path h), Read (if_path h) (if_position h) n]\<rparr>)"
    by (rule InputFile_read_at_eof[OF f e])
  show "readInternal_loop c p chunkSize offset len total' h b fs = None"
    using sen tot by (intro readInternal_loop_stuck[OF f e]) simp_all
qed

theorem fill_loop_spins_at_end_of_file_witness:
  "files fs0 (if_path (h0\<lparr>if_position := 5\<rparr>)) = Some [1, 2, 3, 4, 5] \<and>
   int (length [1::byte, 2, 3, 4, 5]) \<le> if_position (h0\<lparr>if_position := 5\<rparr>) \<and>
   FILE_EOF c0 < 0 \<and> FILE_ERROR c0 < 0 \<and>
   (InputFile_read c0 fs0 (h0\<lparr>if_position := 5\<rparr>) b0 0 1 =
           (0, h0\<lparr>if_position := 5\<rparr>, write_bytes b0 0 [],
            fs0\<lparr>io_log := io_log fs0 @ [Open (if_path (h0\<lparr>if_position := 5\<rparr>)),
               Read (if_path (h0\<lparr>if_position := 5\<rparr>)) (if_position (h0\<lparr>if_position := 5\<rparr>)) 1]\<rparr>)
    \<and> readInternal_loop c0 ''seg'' 2 0 1 0 (h0\<lparr>if_position := 5\<rparr>) b0 fs0 = None)"
proof -
  have f: "files fs0 (if_path (h0\<lparr>if_position := 5\<rparr>)) = Some [1, 2, 3, 4, 5]"
    by (simp add: fs0_def h0_def)
  have e: "int (length [1::byte, 2, 3, 4, 5]) \<le> if_position (h0\<lparr>if_position := 5\<rparr>)"
    "if_position (h0\<lparr>if_position := 5\<rparr>) < 9223372036854775808"
    by simp_all
  have sen: "FILE_EOF c0 < 0" "FILE_ERROR c0 < 0" by (simp_all add: c0_def)
  have tot: "(0::int) \<le> 0" "(0::int) < 1" "(1::int) < 2147483648" by simp_all
  from f e sen fill_loop_spins_at_end_of_file [OF f e sen tot, of b0 0 1 "''seg''" 2 0]
  show ?thesis by blast
qed

subsection \<open>C3: setPosition\<close>

text \<open>
  Claim C3, as amended. \<^verbatim>\<open>InputFile::setPosition(p)\<close> fails with \<open>OutOfRange\<close> exactly when
  \<open>p < 0\<close> or \<open>p > length\<close>; whether it fails or not, the handle's position is \<open>p\<close>
  afterwards, since the assignment stands before the range check. (The claim as written
  has the position unchanged when the call fails.)
\<close>

theorem setPosition_assigns_then_checks:
  "setPosition h p =
     (if p < 0 \<or> p > if_length h then Inl OutOfRange else Inr (), h\<lparr>if_position := p\<rparr>)"
  by (simp add: setPosition_def OutOfRange_def Let_def)

theorem setPosition_assigns_then_checks_witness:
  "setPosition h0 7 = (Inl OutOfRange, h0\<lparr>if_position := 7\<rparr>) \<and>
   setPosition h0 (- 1) = (Inl OutOfRange, h0\<lparr>if_position := - 1\<rparr>) \<and>
   setPosition h0 5 = (Inr (), h0\<lparr>if_position := 5\<rparr>)"
  using setPosition_assigns_then_checks [of h0 7] setPosition_assigns_then_checks [of h0 "- 1"]
    setPosition_assigns_then_checks [of h0 5]
  by (simp add: h0_def)

theorem setPosition_failure_moves_position:
  "fst (setPosition h0 7) = Inl OutOfRange \<and>
   if_position (snd (setPosition h0 7)) \<noteq> if_position h0"
  by (simp add: setPosition_def OutOfRange_def Let_def h0_def)

subsection \<open>C4: close and write on an output stream\<close>

text \<open>
  Claim C4 asks that a second \<^verbatim>\<open>close()\<close> is a no-op and that a write after close fails
  with \<open>Closed\<close>. The first half holds: after a \<^verbatim>\<open>close()\<close> that returned, a second one
  returns without error and leaves the stream and the file system as they are. The
  second half does not: \<^verbatim>\<open>close()\<close> resets the pointer to the OutputFile, and
  \<^verbatim>\<open>flushBuffer\<close>, through which every buffered write reaches the file, calls through that
  pointer; the test of \<^verbatim>\<open>OutputFile::write\<close> that throws \<^verbatim>\<open>file is closed\<close> is never reached
  (lemmas \<open>OutputFile_write_after_close\<close> and \<open>OutputFile_write_Closed_iff\<close> show the
  same one level down).
\<close>

theorem write_after_close_is_not_Closed:
  assumes "SimpleFSIndexOutput_close fs s = (Inr (), s1, fs1)" "out_isOpen s"
  shows "SimpleFSIndexOutput_close fs1 s1 = (Inr (), s1, fs1)
       \<and> flushBuffer fs1 s1 b offset len = (Inl NullDereference, s1, fs1)
       \<and> fst (flushBuffer fs1 s1 b offset len) \<noteq> Inl (Closed p)"
proof -
  from SimpleFSIndexOutput_close_result(1)[OF assms]
  have "flushBuffer fs1 s1 b offset len = (Inl NullDereference, s1, fs1)"
    by (simp add: flushBuffer_def)
  with SimpleFSIndexOutput_close_twice[OF assms(1)] show ?thesis by (simp add: Closed_def)
qed

theorem write_after_close_is_not_Closed_witness:
  "SimpleFSIndexOutput_close fs_out out0 =
     (Inr (), \<lparr>out_buffer = [], out_file = None, out_isOpen = False\<rparr>,
      fs_out\<lparr>files := [''out'' \<mapsto> [9, 8]]\<rparr>) \<and>
   out_isOpen out0 \<and>
   (SimpleFSIndexOutput_close (fs_out\<lparr>files := [''out'' \<mapsto> [9, 8]]\<rparr>)
        \<lparr>out_buffer = [], out_file = None, out_isOpen = False\<rparr> =
      (Inr (), \<lparr>out_buffer = [], out_file = None, out_isOpen = False\<rparr>,
       fs_out\<lparr>files := [''out'' \<mapsto> [9, 8]]\<rparr>)
    \<and> flushBuffer (fs_out\<lparr>files := [''out'' \<mapsto> [9, 8]]\<rparr>)
        \<lparr>out_buffer = [], out_file = None, out_isOpen = False\<rparr> (memory_of [7]) 0 1 =
      (Inl NullDereference, \<lparr>out_buffer = [], out_file = None, out_isOpen = False\<rparr>,
       fs_out\<lparr>files := [''out'' \<mapsto> [9, 8]]\<rparr>)
    \<and> fst (flushBuffer (fs_out\<lparr>files := [''out'' \<mapsto> [9, 8]]\<rparr>)
        \<lparr>out_buffer = [], out_file = None, out_isOpen = False\<rparr> (memory_of [7]) 0 1)
        \<noteq> Inl (Closed ''out''))"
proof -
  have o: "out_isOpen out0" by (simp add: out0_def)
  from SimpleFSIndexOutput_close_example o
    write_after_close_is_not_Closed [OF SimpleFSIndexOutput_close_example o, of "memory_of [7]" 0 1 "''out''"]
  show ?thesis by blast
qed

subsection \<open>C6: construction and the length snapshot\<close>

text \<open>
  Claim C6. Constructing an InputFile on a path with no file fails with \<open>NotFound\<close>
  (and so does opening a stream there); on a path with a file it gives a handle with
  position 0 and the size of the file at that moment as its length. From then on
  \<^verbatim>\<open>length()\<close> of the stream returns that size, after any calls on the streams of the
  store and any change of the files on disk.
\<close>

theorem length_is_a_snapshot:
  "(files (fsys w) p = None \<longrightarrow>
      InputFile_new (fsys w) p = Inl (NotFound p) \<and>
      SimpleFSIndexInput_new w p bufferSize chunkSize = (Inl (NotFound p), w)) \<and>
   (\<forall>bs. files (fsys w) p = Some bs \<longrightarrow>
      InputFile_new (fsys w) p =
        Inr \<lparr>if_path = p, if_position = 0, if_length = int (length bs)\<rparr> \<and>
      (\<exists>this w1. SimpleFSIndexInput_new w p bufferSize chunkSize = (Inr this, w1) \<and>
         SimpleFSIndexInput_length w1 this = Inr (int (length bs)) \<and>
         (\<forall>acts w'. run c acts w1 = Some w' \<longrightarrow>
            SimpleFSIndexInput_length w' this = Inr (int (length bs)))))"
proof (intro conjI impI allI)
  assume "files (fsys w) p = None"
  then show "InputFile_new (fsys w) p = Inl (NotFound p)"
    and "SimpleFSIndexInput_new w p bufferSize chunkSize = (Inl (NotFound p), w)"
    by (simp_all add: InputFile_new_eq SimpleFSIndexInput_new_def)
next
  fix bs assume f: "files (fsys w) p = Some bs"
  define h where "h = \<lparr>if_path = p, if_position = 0, if_length = int (length bs)\<rparr>"
  define s where "s = \<lparr>in_bufferSize = bufferSize, in_filePointer = 0,
                 in_file = Some (length (inputFiles w)), in_path = p,
                 in_chunkSize = chunkSize, in_isClone = False\<rparr>"
  define w1 where "w1 = w\<lparr>inputFiles := inputFiles w @ [h], indexInputs := indexInputs w @ [s]\<rparr>"
  from f show n: "InputFile_new (fsys w) p =
        Inr \<lparr>if_path = p, if_position = 0, if_length = int (length bs)\<rparr>"
    by (simp add: InputFile_new_eq)
  then have new: "SimpleFSIndexInput_new w p bufferSize chunkSize = (Inr (length (indexInputs w)), w1)"
    by (simp add: SimpleFSIndexInput_new_def w1_def h_def s_def)
  have sf: "stream_file w1 (length (indexInputs w)) = Some (s, length (inputFiles w), h)"
    by (simp add: stream_file_def deref_def w1_def s_def)
  have l: "SimpleFSIndexInput_length w' (length (indexInputs w)) = Inr (int (length bs))"
    if "keeps_lengths w1 w'" for w'
    using keeps_lengths_length[OF that sf] by (simp add: h_def)
  have "SimpleFSIndexInput_length w1 (length (indexInputs w)) = Inr (int (length bs))"
    by (rule l) (rule keeps_lengths_refl)
  moreover have "\<forall>acts w'. run c acts w1 = Some w' \<longrightarrow>
            SimpleFSIndexInput_length w' (length (indexInputs w)) = Inr (int (length bs))"
    using l run_keeps_lengths by blast
  ultimately show "\<exists>this w1. SimpleFSIndexInput_new w p bufferSize chunkSize = (Inr this, w1) \<and>
         SimpleFSIndexInput_length w1 this = Inr (int (length bs)) \<and>
         (\<forall>acts w'. run c acts w1 = Some w' \<longrightarrow>
            SimpleFSIndexInput_length w' this = Inr (int (length bs)))"
    using new by blast
qed

theorem length_is_a_snapshot_witness:
  "files (fsys w0) ''gone'' = None \<and>
   InputFile_new (fsys w0) ''gone'' = Inl (NotFound ''gone'') \<and>
   files (fsys w0) ''seg'' = Some [1, 2, 3, 4, 5] \<and>
   InputFile_new (fsys w0) ''seg'' = Inr \<lparr>if_path = ''seg'', if_position = 0, if_length = 5\<rparr> \<and>
   fst (SimpleFSIndexInput_new w0 ''seg'' 8 2) = Inr 1 \<and>
   map_option (\<lambda>w'. SimpleFSIndexInput_length w' 1)
     (run c0 [Seek 1 4, Disk (\<lambda>p. Some [7]), Clone 1, Close 1]
        (snd (SimpleFSIndexInput_new w0 ''seg'' 8 2))) = Some (Inr 5)"
proof -
  note t = length_is_a_snapshot [of w0 "''gone''" 8 2 c0]
  note u = length_is_a_snapshot [of w0 "''seg''" 8 2 c0]
  have g: "files (fsys w0) ''gone'' = None" by (simp add: w0_def fs0_def)
  have f: "files (fsys w0) ''seg'' = Some [1, 2, 3, 4, 5]" by (simp add: w0_def fs0_def)
  from u f obtain t1 w1 where
    new: "SimpleFSIndexInput_new w0 ''seg'' 8 2 = (Inr t1, w1)"
    and i: "InputFile_new (fsys w0) ''seg'' =
        Inr \<lparr>if_path = ''seg'', if_position = 0, if_length = int (length [1::byte, 2, 3, 4, 5])\<rparr>"
    and all: "\<And>acts w'. run c0 acts w1 = Some w' \<Longrightarrow>
       SimpleFSIndexInput_length w' t1 = Inr (int (length [1::byte, 2, 3, 4, 5]))"
    by blast
  have "fst (SimpleFSIndexInput_new w0 ''seg'' 8 2) = Inr 1"
    by (simp add: SimpleFSIndexInput_new_def InputFile_new_eq f) (simp add: w0_def)
  with new have one: "t1 = 1" by simp
  obtain w' where r: "run c0 [Seek 1 4, Disk (\<lambda>p. Some [7]), Clone 1, Close 1] w1 = Some w'"
    by simp
  from all[OF r] have "SimpleFSIndexInput_length w' 1 = Inr 5" by (simp add: one)
  with r new one i g f t show ?thesis by simp
qed

subsection \<open>C7: the count returned by a raw read\<close>

text \<open>
  Claim C7, as amended. A call of \<^verbatim>\<open>InputFile::read\<close> for \<open>len\<close> bytes with \<open>0 \<le> len\<close>
  (\<open>len\<close> an \<^verbatim>\<open>int32_t\<close>) that returns neither sentinel returns a count \<open>i\<close> with
  \<open>0 \<le> i \<le> len\<close>, and the position of the handle has advanced by exactly \<open>i\<close>. The
  position is an \<^verbatim>\<open>int64_t\<close> and file sizes fit one. (The claim as written bounds the
  count by the requested length for every request; \<^verbatim>\<open>length\<close> is a signed \<^verbatim>\<open>int32_t\<close>
  that the function does not test, and a request for \<open>- 3\<close> bytes returns the count 0.)
\<close>

theorem InputFile_read_count:
  assumes "0 \<le> len" "len < 2147483648"
    and "- 9223372036854775808 \<le> if_position h" "if_position h < 9223372036854775808"
    and "\<forall>bs. files fs (if_path h) = Some bs \<longrightarrow> int (length bs) < 9223372036854775808"
    and "InputFile_read c fs h b offset len = (i, h', b', fs')"
    and "i \<noteq> FILE_EOF c" "i \<noteq> FILE_ERROR c"
  shows "0 \<le> i \<and> i \<le> len \<and> if_position h' = if_position h + i"
proof (cases "files fs (if_path h) = None \<or> if_position h < 0")
  case True
  from InputFile_read_error[OF True, of c b offset len] assms(6,8) show ?thesis by simp
next
  case False
  then obtain bs where f: "files fs (if_path h) = Some bs" and pos: "0 \<le> if_position h"
    by auto
  define got where "got = take (nat len) (drop (nat (if_position h)) bs)"
  have l: "int (length got) \<le> len" using assms(1) by (simp add: got_def)
  have i32: "int32 (int (length got)) = int (length got)"
    using l assms(2) by (simp add: int32_id)
  have sz: "int (length bs) < 9223372036854775808" using assms(5) f by simp
  have "if_position h + int (length got) \<le> max (if_position h) (int (length bs))"
    using pos by (auto simp: got_def)
  then have i64: "int64 (if_position h + int (length got)) = if_position h + int (length got)"
    using sz assms(4) pos by (intro int64_id) linarith+
  from assms(6) have "i = int (length got)" "h' = h\<lparr>if_position := if_position h + int (length got)\<rparr>"
    by (auto simp add: InputFile_read_Some[OF f pos] Let_def got_def[symmetric] i32 i64)
  with l show ?thesis by simp
qed

theorem InputFile_read_count_witness:
  "InputFile_read c0 fs0 h0 b0 0 7 =
     (5, h0\<lparr>if_position := 5\<rparr>, write_bytes b0 0 [1, 2, 3, 4, 5],
      fs0\<lparr>io_log := [Open ''seg'', Read ''seg'' 0 7]\<rparr>) \<and>
   5 \<noteq> FILE_EOF c0 \<and> 5 \<noteq> FILE_ERROR c0 \<and>
   ((0::int) \<le> 5 \<and> (5::int) \<le> 7 \<and>
    if_position (h0\<lparr>if_position := 5\<rparr>) = if_position h0 + 5)"
proof -
  have sz: "\<forall>bs. files fs0 (if_path h0) = Some bs \<longrightarrow> int (length bs) < 9223372036854775808"
    by (simp add: fs0_def h0_def)
  have c: "5 \<noteq> FILE_EOF c0" "5 \<noteq> FILE_ERROR c0" by (simp_all add: c0_def)
  have "0 \<le> (5::int) \<and> (5::int) \<le> 7 \<and>
        if_position (h0\<lparr>if_position := 5\<rparr>) = if_position h0 + 5"
    by (rule InputFile_read_count[OF _ _ _ _ sz InputFile_read_example c])
       (simp_all add: h0_def)
  with c InputFile_read_example show ?thesis by blast
qed

theorem InputFile_read_negative_length_returns_more:
  "fst (InputFile_read c0 fs0 (h0\<lparr>if_position := 2\<rparr>) b0 0 (- 3)) = 0 \<and>
   fst (InputFile_read c0 fs0 (h0\<lparr>if_position := 2\<rparr>) b0 0 (- 3)) \<noteq> FILE_EOF c0 \<and>
   fst (InputFile_read c0 fs0 (h0\<lparr>if_position := 2\<rparr>) b0 0 (- 3)) \<noteq> FILE_ERROR c0 \<and>
   \<not> fst (InputFile_read c0 fs0 (h0\<lparr>if_position := 2\<rparr>) b0 0 (- 3)) \<le> - 3"
  unfolding InputFile_read_negative_example by (simp add: c0_def)

subsection \<open>C8: seek\<close>

text \<open>
  Claim C8. \<^verbatim>\<open>seek(pos)\<close> changes the logical position of the stream and nothing else:
  the file system with its log of physical reads and the InputFile objects are as
  before, the position of the shared InputFile among them. The next fill starts its
  chunks on the InputFile as it is when the position of the InputFile equals \<open>pos\<close>;
  when the two differ it repositions the InputFile first (failing with \<open>OutOfRange\<close>
  when \<open>pos\<close> is outside \<open>[0, length]\<close>).
\<close>

theorem seek_is_logical:
  assumes sf: "stream_file w this = Some (s, r, h)"
  shows "seek w this pos =
           (Inr (), w\<lparr>indexInputs := list_update (indexInputs w) this (s\<lparr>in_filePointer := pos\<rparr>)\<rparr>)
     \<and> fsys (snd (seek w this pos)) = fsys w
     \<and> inputFiles (snd (seek w this pos)) = inputFiles w
     \<and> stream_file (snd (seek w this pos)) this = Some (s\<lparr>in_filePointer := pos\<rparr>, r, h)
     \<and> readInternal c (snd (seek w this pos)) this b offset len =
         (if pos = if_position h then
            read_chunks c (snd (seek w this pos)) (s\<lparr>in_filePointer := pos\<rparr>) r h b offset len
          else if pos < 0 \<or> if_length h < pos then
            Some (Inl OutOfRange, put_file (snd (seek w this pos)) r (h\<lparr>if_position := pos\<rparr>), b)
          else
            read_chunks c (snd (seek w this pos)) (s\<lparr>in_filePointer := pos\<rparr>) r
              (h\<lparr>if_position := pos\<rparr>) b offset len)"
proof -
  note d = stream_file_D[OF sf]
  have sk: "seek w this pos =
           (Inr (), w\<lparr>indexInputs := list_update (indexInputs w) this (s\<lparr>in_filePointer := pos\<rparr>)\<rparr>)"
    using d(1) by (simp add: seek_def seekInternal_def)
  have sf': "stream_file (snd (seek w this pos)) this = Some (s\<lparr>in_filePointer := pos\<rparr>, r, h)"
    using d by (auto simp: sk stream_file_def deref_def split: if_splits)
  have rd: "readInternal c (snd (seek w this pos)) this b offset len =
         (if pos = if_position h then
            read_chunks c (snd (seek w this pos)) (s\<lparr>in_filePointer := pos\<rparr>) r h b offset len
          else if pos < 0 \<or> if_length h < pos then
            Some (Inl OutOfRange, put_file (snd (seek w this pos)) r (h\<lparr>if_position := pos\<rparr>), b)
          else
            read_chunks c (snd (seek w this pos)) (s\<lparr>in_filePointer := pos\<rparr>) r
              (h\<lparr>if_position := pos\<rparr>) b offset len)"
    by (simp add: readInternal_def sf' getFilePointer_def getPosition_def setPosition_def
        Let_def OutOfRange_def)
  show ?thesis using sf' rd by (simp add: sk)
qed

theorem seek_is_logical_witness:
  "stream_file w0 0 = Some (s0, 0, h0) \<and>
   (seek w0 0 4 =
           (Inr (), w0\<lparr>indexInputs := list_update (indexInputs w0) 0 (s0\<lparr>in_filePointer := 4\<rparr>)\<rparr>)
     \<and> fsys (snd (seek w0 0 4)) = fsys w0
     \<and> inputFiles (snd (seek w0 0 4)) = inputFiles w0
     \<and> stream_file (snd (seek w0 0 4)) 0 = Some (s0\<lparr>in_filePointer := 4\<rparr>, 0, h0)
     \<and> readInternal c0 (snd (seek w0 0 4)) 0 b0 0 1 =
         (if 4 = if_position h0 then
            read_chunks c0 (snd (seek w0 0 4)) (s0\<lparr>in_filePointer := 4\<rparr>) 0 h0 b0 0 1
          else if (4::int) < 0 \<or> if_length h0 < 4 then
            Some (Inl OutOfRange, put_file (snd (seek w0 0 4)) 0 (h0\<lparr>if_position := 4\<rparr>), b0)
          else
            read_chunks c0 (snd (seek w0 0 4)) (s0\<lparr>in_filePointer := 4\<rparr>) 0
              (h0\<lparr>if_position := 4\<rparr>) b0 0 1))"
proof -
  have sf: "stream_file w0 0 = Some (s0, 0, h0)"
    by (simp add: stream_file_def deref_def w0_def s0_def)
  from sf seek_is_logical [OF sf] show ?thesis by blast
qed

subsection \<open>C9: clone\<close>

text \<open>
  Claim C9. \<^verbatim>\<open>clone()\<close> on a stream \<open>s\<close> allocates a new stream with the same InputFile
  pointer, path and chunk size as \<open>s\<close>, a copy of the logical position of \<open>s\<close> and
  \<open>isClone = true\<close>. The file system with its log of physical reads, the InputFile
  objects and every stream that existed before, \<open>s\<close> among them, are as they were.
\<close>

theorem clone_shares_the_handle:
  assumes "deref (indexInputs w) this = Some s"
  shows "clone w this None =
           (Inr (length (indexInputs w)),
            w\<lparr>indexInputs := indexInputs w @
                 [\<lparr>in_bufferSize = in_bufferSize s, in_filePointer = in_filePointer s,
                   in_file = in_file s, in_path = in_path s, in_chunkSize = in_chunkSize s,
                   in_isClone = True\<rparr>]\<rparr>)
       \<and> fsys (snd (clone w this None)) = fsys w
       \<and> inputFiles (snd (clone w this None)) = inputFiles w
       \<and> deref (indexInputs (snd (clone w this None))) this = Some s
       \<and> take (length (indexInputs w)) (indexInputs (snd (clone w this None))) = indexInputs w"
proof -
  have eq: "clone w this None =
           (Inr (length (indexInputs w)),
            w\<lparr>indexInputs := indexInputs w @
                 [\<lparr>in_bufferSize = in_bufferSize s, in_filePointer = in_filePointer s,
                   in_file = in_file s, in_path = in_path s, in_chunkSize = in_chunkSize s,
                   in_isClone = True\<rparr>]\<rparr>)"
    using assms
    by (simp add: clone_def deref_def Let_def BufferedIndexInput_clone_def
        SimpleFSIndexInput_default_def getFilePointer_def)
  from assms have "this < length (indexInputs w)" "indexInputs w ! this = s"
    by (auto simp: deref_def split: if_splits)
  then show ?thesis unfolding eq by (simp add: deref_def nth_append)
qed

theorem clone_shares_the_handle_witness:
  "deref (indexInputs w0) 0 = Some s0 \<and>
   (clone w0 0 None =
           (Inr (length (indexInputs w0)),
            w0\<lparr>indexInputs := indexInputs w0 @
                 [\<lparr>in_bufferSize = in_bufferSize s0, in_filePointer = in_filePointer s0,
                   in_file = in_file s0, in_path = in_path s0, in_chunkSize = in_chunkSize s0,
                   in_isClone = True\<rparr>]\<rparr>)
       \<and> fsys (snd (clone w0 0 None)) = fsys w0
       \<and> inputFiles (snd (clone w0 0 None)) = inputFiles w0
       \<and> deref (indexInputs (snd (clone w0 0 None))) 0 = Some s0
       \<and> take (length (indexInputs w0)) (indexInputs (snd (clone w0 0 None))) = indexInputs w0)"
proof -
  have d: "deref (indexInputs w0) 0 = Some s0" by (simp add: deref_def w0_def)
  from d clone_shares_the_handle [OF d] show ?thesis by blast
qed

subsection \<open>C10: a fill of no bytes\<close>

text \<open>
  Claim C10, as amended. A fill request of zero or negative length performs no physical
  read (the file system and its log are as before) and leaves the position of the shared
  InputFile at the stream's logical file pointer. It completes without error, unless the
  two positions differ and the file pointer lies outside \<open>[0, length]\<close>: then the fill
  fails with \<open>OutOfRange\<close>, the handle's position assigned all the same. (The claim as
  written has every such fill complete without error.)
\<close>

theorem empty_fill_reconciles:
  assumes sf: "stream_file w this = Some (s, r, h)" and len: "len \<le> 0"
  shows "readInternal c w this b offset len =
           Some (if in_filePointer s \<noteq> if_position h \<and>
                    (in_filePointer s < 0 \<or> if_length h < in_filePointer s)
                 then Inl OutOfRange else Inr (),
                 put_file w r (h\<lparr>if_position := in_filePointer s\<rparr>), b)
         \<and> fsys (put_file w r (h\<lparr>if_position := in_filePointer s\<rparr>)) = fsys w"
proof (cases "in_filePointer s = if_position h")
  case True
  then have "h\<lparr>if_position := in_filePointer s\<rparr> = h" by simp
  with True sf len show ?thesis
    by (simp add: readInternal_def getFilePointer_def getPosition_def read_chunks_nothing
        put_file_def)
next
  case False
  with sf len show ?thesis
    by (simp add: readInternal_def getFilePointer_def getPosition_def read_chunks_nothing
        setPosition_def Let_def OutOfRange_def put_file_def)
qed

theorem empty_fill_reconciles_witness:
  "stream_file w0 0 = Some (s0, 0, h0) \<and> (0::int) \<le> 0 \<and>
   (readInternal c0 w0 0 b0 0 0 =
           Some (if in_filePointer s0 \<noteq> if_position h0 \<and>
                    (in_filePointer s0 < 0 \<or> if_length h0 < in_filePointer s0)
                 then Inl OutOfRange else Inr (),
                 put_file w0 0 (h0\<lparr>if_position := in_filePointer s0\<rparr>), b0)
         \<and> fsys (put_file w0 0 (h0\<lparr>if_position := in_filePointer s0\<rparr>)) = fsys w0)"
proof -
  have sf: "stream_file w0 0 = Some (s0, 0, h0)"
    by (simp add: stream_file_def deref_def w0_def s0_def)
  have l: "(0::int) \<le> 0" by simp
  from sf l empty_fill_reconciles [OF sf l] show ?thesis by blast
qed

theorem empty_fill_after_seek_past_end_fails:
  "readInternal c0 (snd (seek w0 0 9)) 0 b0 0 0 =
     Some (Inl OutOfRange,
           \<lparr>fsys = fs0, inputFiles = [h0\<lparr>if_position := 9\<rparr>],
            indexInputs = [s0\<lparr>in_filePointer := 9\<rparr>]\<rparr>, b0)"
proof -
  have w: "snd (seek w0 0 9) =
      \<lparr>fsys = fs0, inputFiles = [h0], indexInputs = [s0\<lparr>in_filePointer := 9\<rparr>]\<rparr>"
    by (simp add: seek_def seekInternal_def deref_def w0_def)
  have sf: "stream_file \<lparr>fsys = fs0, inputFiles = [h0], indexInputs = [s0\<lparr>in_filePointer := 9\<rparr>]\<rparr> 0
      = Some (s0\<lparr>in_filePointer := 9\<rparr>, 0, h0)"
    by (simp add: stream_file_def deref_def s0_def)
  have h: "if_position h0 = 0" "if_length h0 = 5" by (simp_all add: h0_def)
  show ?thesis unfolding w
    by (simp add: readInternal_def sf getFilePointer_def getPosition_def setPosition_def
        Let_def OutOfRange_def put_file_def h)
qed

end
